theory Spec2Isabelle
  imports Main
begin

section \<open>Strings and input validation\<close>

text \<open>
  JavaScript strings are modelled as lists of code units below 256. The white space
  that \<^verbatim>\<open>String.prototype.trim\<close> strips and that the regular expression class
  \<^verbatim>\<open>\s\<close> matches is, in that range, TAB, LF, VT, FF, CR, SPACE and NBSP.
\<close>

definition is_space :: "char \<Rightarrow> bool" where
  "is_space c = (c \<in> set [CHR 0x09, CHR 0x0A, CHR 0x0B, CHR 0x0C, CHR 0x0D, CHR 0x20, CHR 0xA0])"

definition trim :: "string \<Rightarrow> string" where
  "trim s = rev (dropWhile is_space (rev (dropWhile is_space s)))"

text \<open>\<^verbatim>\<open>/^[^\s@]+@[^\s@]+\.[^\s@]+$/.test(email) && email.length <= 255\<close>\<close>

definition plain :: "char \<Rightarrow> bool" where
  "plain c = (\<not> is_space c \<and> c \<noteq> CHR ''@'')"

definition validateEmail :: "string \<Rightarrow> bool" where
  "validateEmail email =
     (let local = takeWhile (\<lambda>c. c \<noteq> CHR ''@'') email;
          rest = dropWhile (\<lambda>c. c \<noteq> CHR ''@'') email
      in local \<noteq> [] \<and> list_all plain local \<and> rest \<noteq> [] \<and> list_all plain (tl rest) \<and>
         CHR ''.'' \<in> set (butlast (tl (tl rest))) \<and> length email \<le> 255)"

text \<open>\<^verbatim>\<open>typeof str === 'string' && str.trim().length >= minLen && str.length <= maxLen\<close>;
  the request fields are typed as strings, so the \<^verbatim>\<open>typeof\<close> test is true.\<close>

definition validateString :: "string \<Rightarrow> nat \<Rightarrow> nat \<Rightarrow> bool" where
  "validateString str minLen maxLen = (minLen \<le> length (trim str) \<and> length str \<le> maxLen)"

definition sanitizeString :: "string \<Rightarrow> string" where
  "sanitizeString str = take 255 (trim str)"

section \<open>The persistence layer\<close>

text \<open>
  Table \<^verbatim>\<open>slots\<close> has \<^verbatim>\<open>id\<close> as its primary key, so it is a map from ids to rows.
  Table \<^verbatim>\<open>bookings\<close> is kept as the list of its rows in insertion order; its primary
  key \<^verbatim>\<open>id\<close> is enforced by the insert statement.
\<close>

record slot_row =
  subject_id :: string
  start_time :: string
  duration :: int
  max_capacity :: int
  current_bookings :: int
  location :: string

record booking_row =
  booking_id :: string
  slot_id :: string
  booking_subject_id :: string
  student_name :: string
  student_id :: string
  student_email :: string
  custom_answers :: string
  status :: string

record db =
  slots :: "string \<rightharpoonup> slot_row"
  bookings :: "booking_row list"

text \<open>\<^verbatim>\<open>SELECT id FROM bookings WHERE slot_id = ? AND student_id = ?\<close>\<close>

definition select_existing :: "string \<Rightarrow> string \<Rightarrow> db \<Rightarrow> booking_row list" where
  "select_existing sid stid d = filter (\<lambda>b. slot_id b = sid \<and> student_id b = stid) (bookings d)"

text \<open>\<^verbatim>\<open>UPDATE slots SET current_bookings = current_bookings + 1
  WHERE id = ? AND current_bookings = ? AND current_bookings < max_capacity\<close>\<close>

definition update_increment :: "string \<Rightarrow> int \<Rightarrow> db \<Rightarrow> db" where
  "update_increment sid seen d =
     (case slots d sid of
        None \<Rightarrow> d
      | Some r \<Rightarrow>
          if current_bookings r = seen \<and> current_bookings r < max_capacity r
          then d\<lparr>slots := (slots d)(sid \<mapsto> r\<lparr>current_bookings := current_bookings r + 1\<rparr>)\<rparr>
          else d)"

text \<open>\<^verbatim>\<open>UPDATE slots SET current_bookings = GREATEST(current_bookings - 1, 0) WHERE id = ?\<close>\<close>

definition update_decrement :: "string \<Rightarrow> db \<Rightarrow> db" where
  "update_decrement sid d =
     (case slots d sid of
        None \<Rightarrow> d
      | Some r \<Rightarrow> d\<lparr>slots := (slots d)(sid \<mapsto> r\<lparr>current_bookings := max (current_bookings r - 1) 0\<rparr>)\<rparr>)"

text \<open>\<^verbatim>\<open>INSERT INTO bookings (...) VALUES (...)\<close>: fails on a primary key that is taken.\<close>

definition insert_booking :: "booking_row \<Rightarrow> db \<Rightarrow> db option" where
  "insert_booking b d =
     (if booking_id b \<in> set (map booking_id (bookings d)) then None
      else Some (d\<lparr>bookings := bookings d @ [b]\<rparr>))"

section \<open>Responses\<close>

datatype body =
    Error string
  | Success
  | SuccessBooking string
  | SuccessId string
  | SuccessCount nat

type_synonym response = "body \<times> nat"

definition json :: "body \<Rightarrow> nat \<Rightarrow> response" where
  "json data st = (data, st)"

text \<open>The handler's outer \<^verbatim>\<open>catch\<close>: every exception becomes this response.\<close>

definition server_error :: response where
  "server_error = json (Error ''Server error'') 500"

section \<open>POST /bookings\<close>

record booking_request =
  slotId :: string
  subjectId :: string
  studentName :: string
  studentId :: string
  studentEmail :: string
  customAnswers :: string

text \<open>
  The branch of the request handler for \<^verbatim>\<open>POST /bookings\<close>, from the validation of the
  fields to the response; it is reached when the rate limiter lets the request through
  and the server configuration is complete. The request body is the
  \<^verbatim>\<open>CreateBookingRequest\<close> of the client, its fields strings, the custom answers in
  their serialised form.

  What the handler gets from outside the database contents: the identifier that
  \<^verbatim>\<open>uuid()\<close> returns, which of its statements the storage layer fails (a thrown
  exception, the statement having no effect), and whether the mail endpoint is configured.
\<close>

datatype stmt =
    SelectExisting
  | SelectSlot
  | UpdateIncrement
  | SelectVerify
  | InsertBooking
  | UpdateCompensate
  | SelectDetails
  | SelectBooking
  | DeleteBooking
  | UpdateCancel
  | InsertSlot
  | UpdateSlot
  | InsertBatch nat

text \<open>\<^verbatim>\<open>uuid e n\<close> is what the \<open>n\<close>-th call of \<^verbatim>\<open>uuid()\<close> in the request returns
  (counted from 0). \<^verbatim>\<open>toISOString e s\<close> is
  \<^verbatim>\<open>new Date(s).toISOString().slice(0, 19).replace('T', ' ')\<close>, \<open>None\<close> when the
  date is invalid and \<^verbatim>\<open>toISOString\<close> throws a RangeError.\<close>

record env =
  uuid :: "nat \<Rightarrow> string"
  fails :: "stmt \<Rightarrow> bool"
  email_configured :: bool
  toISOString :: "string \<Rightarrow> string option"

definition validate_booking :: "booking_request \<Rightarrow> response option" where
  "validate_booking data =
     (if \<not> validateString (slotId data) 1 36 \<or> \<not> validateString (subjectId data) 1 36
        then Some (json (Error ''Invalid slot or subject ID'') 400)
      else if \<not> validateString (studentName data) 2 255
        then Some (json (Error ''Student name must be 2-255 characters'') 400)
      else if \<not> validateString (studentId data) 1 100
        then Some (json (Error ''Invalid student ID'') 400)
      else if \<not> validateEmail (studentEmail data)
        then Some (json (Error ''Invalid email address'') 400)
      else None)"

definition new_booking :: "env \<Rightarrow> booking_request \<Rightarrow> booking_row" where
  "new_booking e data =
     \<lparr>booking_id = uuid e 0, slot_id = slotId data, booking_subject_id = subjectId data,
      student_name = sanitizeString (studentName data),
      student_id = sanitizeString (studentId data),
      student_email = sanitizeString (studentEmail data),
      custom_answers = customAnswers data, status = ''confirmed''\<rparr>"

text \<open>The booking record creation with its compensating decrement, and the mail step.\<close>

definition create_booking :: "env \<Rightarrow> booking_request \<Rightarrow> db \<Rightarrow> response \<times> db" where
  "create_booking e data d1 =
     (case (if fails e InsertBooking then None else insert_booking (new_booking e data) d1) of
        None \<Rightarrow>
          if fails e UpdateCompensate then (server_error, d1)
          else (server_error, update_decrement (slotId data) d1)
      | Some d2 \<Rightarrow>
          if email_configured e \<and> fails e SelectDetails then (server_error, d2)
          else (json (SuccessBooking (uuid e 0)) 200, d2))"

definition post_bookings :: "env \<Rightarrow> booking_request \<Rightarrow> db \<Rightarrow> response \<times> db" where
  "post_bookings e data d =
     (case validate_booking data of
        Some r \<Rightarrow> (r, d)
      | None \<Rightarrow>
          if fails e SelectExisting then (server_error, d)
          else if select_existing (slotId data) (sanitizeString (studentId data)) d \<noteq> []
            then (json (Error ''You have already booked this slot'') 400, d)
          else if fails e SelectSlot then (server_error, d)
          else (case slots d (slotId data) of
             None \<Rightarrow> (json (Error ''Slot no longer exists'') 400, d)
           | Some slot \<Rightarrow>
               if max_capacity slot \<le> current_bookings slot
                 then (json (Error ''Sorry, this slot is fully booked!'') 409, d)
               else if fails e UpdateIncrement then (server_error, d)
               else
                 let d1 = update_increment (slotId data) (current_bookings slot) d in
                 if fails e SelectVerify then (server_error, d1)
                 else (case slots d1 (slotId data) of
                    None \<Rightarrow> (json (Error ''Sorry, this slot just got fully booked!'') 409, d1)
                  | Some updatedSlot \<Rightarrow>
                      if current_bookings updatedSlot \<le> current_bookings slot
                        then (json (Error ''Sorry, this slot just got fully booked!'') 409, d1)
                      else create_booking e data d1)))"

subsection \<open>The handler in two parts, and two requests that overlap\<close>




section \<open>Staff routes that change slots\<close>

text \<open>The bodies of the staff routes, reached once the bearer token has been verified.\<close>

text \<open>\<^verbatim>\<open>DELETE /staff/bookings/:id\<close>: delete the booking row, then decrement the slot's
  counter, floored at 0.\<close>

definition delete_staff_booking :: "env \<Rightarrow> string \<Rightarrow> db \<Rightarrow> response \<times> db" where
  "delete_staff_booking e bookingId d =
     (if \<not> validateString bookingId 1 36 then (json (Error ''Invalid booking ID'') 400, d)
      else if fails e SelectBooking then (server_error, d)
      else (case filter (\<lambda>b. booking_id b = bookingId) (bookings d) of
         [] \<Rightarrow> (json (Error ''Booking not found'') 404, d)
       | booking # _ \<Rightarrow>
           if fails e DeleteBooking then (server_error, d)
           else
             let d1 = d\<lparr>bookings := filter (\<lambda>b. booking_id b \<noteq> bookingId) (bookings d)\<rparr> in
             if fails e UpdateCancel then (server_error, d1)
             else (json Success 200, update_decrement (slot_id booking) d1)))"

text \<open>\<^verbatim>\<open>POST /staff/slots\<close>: one slot, with \<^verbatim>\<open>duration || 20\<close> and
  \<^verbatim>\<open>maxCapacity || 1\<close>.\<close>

record slot_request =
  new_subjectId :: string
  new_startTime :: "string option"
  new_duration :: "int option"
  new_maxCapacity :: "int option"
  new_location :: "string option"

text \<open>\<^verbatim>\<open>x || dflt\<close> on an optional number: 0 and a missing value give the default.\<close>

definition or_num :: "int option \<Rightarrow> int \<Rightarrow> int" where
  "or_num x dflt = (case x of None \<Rightarrow> dflt | Some v \<Rightarrow> if v = 0 then dflt else v)"

text \<open>\<^verbatim>\<open>x || dflt\<close> on an optional string: the empty string and a missing value give the default.\<close>

definition or_str :: "string option \<Rightarrow> string \<Rightarrow> string" where
  "or_str x dflt = (case x of None \<Rightarrow> dflt | Some v \<Rightarrow> if v = [] then dflt else v)"

definition post_staff_slots :: "env \<Rightarrow> slot_request \<Rightarrow> db \<Rightarrow> response \<times> db" where
  "post_staff_slots e req d =
     (if \<not> validateString (new_subjectId req) 1 36 then (json (Error ''Invalid subject ID'') 400, d)
      else if or_str (new_startTime req) [] = [] then (json (Error ''Start time required'') 400, d)
      else (case toISOString e (or_str (new_startTime req) []) of
         None \<Rightarrow> (server_error, d)
       | Some t \<Rightarrow>
           if fails e InsertSlot \<or> slots d (uuid e 0) \<noteq> None then (server_error, d)
           else (json (SuccessId (uuid e 0)) 200,
                 d\<lparr>slots := (slots d)(uuid e 0 \<mapsto>
                    \<lparr>subject_id = new_subjectId req, start_time = t,
                     duration = or_num (new_duration req) 20,
                     max_capacity = or_num (new_maxCapacity req) 1,
                     current_bookings = 0,
                     location = sanitizeString (or_str (new_location req) [])\<rparr>)\<rparr>)))"

text \<open>\<^verbatim>\<open>PUT /staff/slots/:id\<close>: every field that is given is written, as it is.\<close>

record slot_update =
  upd_maxCapacity :: "int option"
  upd_startTime :: "string option"
  upd_duration :: "int option"
  upd_location :: "string option"
  upd_subjectId :: "string option"

definition apply_update :: "slot_update \<Rightarrow> string option \<Rightarrow> slot_row \<Rightarrow> slot_row" where
  "apply_update u t r =
     r\<lparr>max_capacity := (case upd_maxCapacity u of None \<Rightarrow> max_capacity r | Some m \<Rightarrow> m),
       start_time := (case t of None \<Rightarrow> start_time r | Some t' \<Rightarrow> t'),
       duration := (case upd_duration u of None \<Rightarrow> duration r | Some v \<Rightarrow> v),
       location := (case upd_location u of None \<Rightarrow> location r | Some l \<Rightarrow> sanitizeString l),
       subject_id := (case upd_subjectId u of None \<Rightarrow> subject_id r | Some s \<Rightarrow> s)\<rparr>"

definition put_staff_slots :: "env \<Rightarrow> string \<Rightarrow> slot_update \<Rightarrow> db \<Rightarrow> response \<times> db" where
  "put_staff_slots e slotId' u d =
     (if \<not> validateString slotId' 1 36 then (json (Error ''Invalid slot ID'') 400, d)
      else
        let given = or_str (upd_startTime u) [] \<noteq> [] in
        if given \<and> toISOString e (or_str (upd_startTime u) []) = None then (server_error, d)
        else
          let t = (if given then toISOString e (or_str (upd_startTime u) []) else None) in
          if upd_maxCapacity u = None \<and> \<not> given \<and> upd_duration u = None \<and>
             upd_location u = None \<and> upd_subjectId u = None
            then (json Success 200, d)
          else if fails e UpdateSlot then (server_error, d)
          else (json Success 200,
                case slots d slotId' of
                  None \<Rightarrow> d
                | Some r \<Rightarrow> d\<lparr>slots := (slots d)(slotId' \<mapsto> apply_update u t r)\<rparr>))"

section \<open>POST /staff/slots/generate\<close>

subsection \<open>Numbers and their text\<close>

text \<open>JavaScript's \<^verbatim>\<open>%\<close> takes the sign of the dividend.\<close>

definition js_rem :: "int \<Rightarrow> int \<Rightarrow> int" where
  "js_rem a b = (if a < 0 then - ((- a) mod \<bar>b\<bar>) else a mod \<bar>b\<bar>)"

definition is_digit :: "char \<Rightarrow> bool" where
  "is_digit c = (c \<in> set ''0123456789'')"

definition digit_val :: "char \<Rightarrow> nat" where
  "digit_val c = of_char c - 48"

definition nat_of_digits :: "string \<Rightarrow> nat" where
  "nat_of_digits s = foldl (\<lambda>n c. 10 * n + digit_val c) 0 s"

definition digit_char :: "nat \<Rightarrow> char" where
  "digit_char n = ''0123456789'' ! n"

fun digits :: "nat \<Rightarrow> string" where
  "digits n = (if n < 10 then [digit_char n] else digits (n div 10) @ [digit_char (n mod 10)])"

declare digits.simps [simp del]

text \<open>\<^verbatim>\<open>String(i)\<close> for an integer.\<close>

definition String :: "int \<Rightarrow> string" where
  "String i = (if i < 0 then CHR ''-'' # digits (nat (- i)) else digits (nat i))"

definition padStart :: "nat \<Rightarrow> char \<Rightarrow> string \<Rightarrow> string" where
  "padStart n c s = replicate (n - length s) c @ s"

text \<open>
  \<^verbatim>\<open>Number(s)\<close> on the text of a clock field: white space around it is ignored, the empty
  text is 0, decimal digits with an optional sign are that integer, and every other text
  is NaN, which is \<open>None\<close> here. (JavaScript also reads fractions, exponents, radix
  prefixes and \<^verbatim>\<open>Infinity\<close>; an \<^verbatim>\<open>HH:MM\<close> field holds none of them, and on such
  texts the model and the code differ. Minutes are integers here; the code's doubles are
  exact on integers below \<open>2^53\<close>.)
\<close>

definition Number :: "string \<Rightarrow> int option" where
  "Number s =
     (let t = trim s in
      if t = [] then Some 0
      else if list_all is_digit t then Some (int (nat_of_digits t))
      else if hd t = CHR ''-'' \<and> tl t \<noteq> [] \<and> list_all is_digit (tl t)
        then Some (- int (nat_of_digits (tl t)))
      else if hd t = CHR ''+'' \<and> tl t \<noteq> [] \<and> list_all is_digit (tl t)
        then Some (int (nat_of_digits (tl t)))
      else None)"

fun split :: "char \<Rightarrow> string \<Rightarrow> string list" where
  "split c [] = [[]]"
| "split c (x # xs) =
     (if x = c then [] # split c xs
      else (case split c xs of [] \<Rightarrow> [[x]] | p # ps \<Rightarrow> (x # p) # ps))"

text \<open>\<^verbatim>\<open>const [h, m] = timeStr.split(':').map(Number); return h * 60 + m\<close>: a missing
  second part is \<^verbatim>\<open>undefined\<close> and the sum is NaN.\<close>

definition parseTimeToMinutes :: "string \<Rightarrow> int option" where
  "parseTimeToMinutes timeStr =
     (case map Number (split CHR '':'' timeStr) of
        Some h # Some m # _ \<Rightarrow> Some (h * 60 + m)
      | _ \<Rightarrow> None)"

definition minutesToTimeStr :: "int \<Rightarrow> string" where
  "minutesToTimeStr mins =
     padStart 2 CHR ''0'' (String (mins div 60)) @ '':'' @
     padStart 2 CHR ''0'' (String (js_rem mins 60)) @ '':00''"

subsection \<open>Dates\<close>

record date =
  year :: int
  month :: int
  day :: int

text \<open>\<^verbatim>\<open>dateStr.match(/^(\d{4})-(\d{2})-(\d{2})/)\<close>, the groups read by \<^verbatim>\<open>parseInt\<close>.\<close>

definition parseDateStr :: "string \<Rightarrow> date option" where
  "parseDateStr dateStr =
     (if 10 \<le> length dateStr \<and> list_all is_digit (take 4 dateStr) \<and> dateStr ! 4 = CHR ''-'' \<and>
         list_all is_digit (take 2 (drop 5 dateStr)) \<and> dateStr ! 7 = CHR ''-'' \<and>
         list_all is_digit (take 2 (drop 8 dateStr))
      then Some \<lparr>year = int (nat_of_digits (take 4 dateStr)),
                 month = int (nat_of_digits (take 2 (drop 5 dateStr))),
                 day = int (nat_of_digits (take 2 (drop 8 dateStr)))\<rparr>
      else None)"

text \<open>Zeller's formula; the result is 0 for Sunday up to 6 for Saturday.\<close>

definition getDayOfWeek :: "int \<Rightarrow> int \<Rightarrow> int \<Rightarrow> int" where
  "getDayOfWeek year0 month0 day0 =
     (let month1 = (if month0 < 3 then month0 + 12 else month0);
          year1 = (if month0 < 3 then year0 - 1 else year0);
          q = day0;
          m = month1;
          k = js_rem year1 100;
          j = year1 div 100;
          h = js_rem (q + (13 * (m + 1)) div 5 + k + k div 4 + j div 4 - 2 * j) 7
      in js_rem (h + 6) 7)"

definition isLeap :: "int \<Rightarrow> bool" where
  "isLeap y = ((js_rem y 4 = 0 \<and> js_rem y 100 \<noteq> 0) \<or> js_rem y 400 = 0)"

text \<open>\<^verbatim>\<open>daysInMonth[month]\<close>: the table has indices 0 to 12, entry 2 being 28 or 29;
  any other index reads \<^verbatim>\<open>undefined\<close>.\<close>

definition daysInMonth :: "bool \<Rightarrow> int \<Rightarrow> int option" where
  "daysInMonth leap m =
     (if 0 \<le> m \<and> m \<le> 12
      then Some ([0, 31, if leap then 29 else 28, 31, 30, 31, 30, 31, 31, 30, 31, 30, 31] ! nat m)
      else None)"

text \<open>The loop of \<^verbatim>\<open>addDays\<close>; a comparison with \<^verbatim>\<open>undefined\<close> is false and ends it.\<close>

function addDays_loop :: "bool \<Rightarrow> int \<Rightarrow> int \<Rightarrow> int \<Rightarrow> date" where
  "addDays_loop leap y m d =
     (case daysInMonth leap m of
        None \<Rightarrow> \<lparr>year = y, month = m, day = d\<rparr>
      | Some n \<Rightarrow>
          if n < d then
            (if 12 < m + 1 then addDays_loop (isLeap (y + 1)) (y + 1) 1 (d - n)
             else addDays_loop leap y (m + 1) (d - n))
          else \<lparr>year = y, month = m, day = d\<rparr>)"
  by pat_completeness auto
termination
  by (relation "measure (\<lambda>(leap, y, m, d). 2 * nat d + (if m = 0 then 1 else 0))")
     (auto simp: daysInMonth_def nth_Cons' split: if_splits)

declare addDays_loop.simps [simp del]

definition addDays :: "int \<Rightarrow> int \<Rightarrow> int \<Rightarrow> int \<Rightarrow> date" where
  "addDays y m d daysToAdd = addDays_loop (isLeap y) y m (d + daysToAdd)"

definition compareDates :: "date \<Rightarrow> date \<Rightarrow> int" where
  "compareDates a b =
     (if year a \<noteq> year b then year a - year b
      else if month a \<noteq> month b then month a - month b
      else day a - day b)"

definition formatDate :: "date \<Rightarrow> string" where
  "formatDate c = String (year c) @ ''-'' @ padStart 2 CHR ''0'' (String (month c)) @ ''-'' @
                  padStart 2 CHR ''0'' (String (day c))"

text \<open>The recurring walk from \<^verbatim>\<open>start\<close> to \<^verbatim>\<open>end\<close>; \<open>None\<close> when it never ends.\<close>

text \<open>\<^verbatim>\<open>!days || days.length === 0 || days.includes(dow)\<close>\<close>

definition day_selected :: "int list option \<Rightarrow> int \<Rightarrow> bool" where
  "day_selected days dow = (case days of None \<Rightarrow> True | Some ds \<Rightarrow> ds = [] \<or> dow \<in> set ds)"

partial_function (option) date_walk ::
  "int list option \<Rightarrow> date \<Rightarrow> date \<Rightarrow> string list \<Rightarrow> string list option" where
  "date_walk days stop current targetDateStrs =
     (if compareDates current stop \<le> 0 then
        date_walk days stop (addDays (year current) (month current) (day current) 1)
          (if day_selected days (getDayOfWeek (year current) (month current) (day current))
           then targetDateStrs @ [formatDate current] else targetDateStrs)
      else Some targetDateStrs)"

declare date_walk.simps [code]

subsection \<open>The request\<close>

record time_range =
  range_startTime :: string
  range_endTime :: string

record lunch =
  lunch_start :: string
  lunch_end :: string

record generate_request =
  gen_subjectId :: string
  dates :: "string list option"
  startDate :: "string option"
  endDate :: "string option"
  timeRanges :: "time_range list option"
  startTime :: "string option"
  endTime :: "string option"
  gen_duration :: int
  capacity :: int
  days :: "int list option"
  breakTime :: "int option"
  gen_location :: "string option"
  lunchBreak :: "lunch option"

text \<open>\<^verbatim>\<open>timeRanges && timeRanges.length > 0 ? timeRanges :
  [{ startTime: startTime || '09:00', endTime: endTime || '17:00' }]\<close>\<close>

definition ranges :: "generate_request \<Rightarrow> time_range list" where
  "ranges req =
     (case timeRanges req of
        Some (r # rs) \<Rightarrow> r # rs
      | _ \<Rightarrow> [\<lparr>range_startTime = or_str (startTime req) ''09:00'',
                range_endTime = or_str (endTime req) ''17:00''\<rparr>])"

text \<open>
  The lunch window that the walk tests against. \<^verbatim>\<open>lunchStartMin\<close> and
  \<^verbatim>\<open>lunchEndMin\<close> start as 0 and are parsed when \<^verbatim>\<open>lunchBreak?.start &&
  lunchBreak?.end\<close>; the walk tests \<^verbatim>\<open>lunchBreak && lunchStartMin && lunchEndMin\<close>
  before it compares, so a bound that is 0 or NaN switches the exclusion off.
\<close>

definition lunchStartMin :: "generate_request \<Rightarrow> int option" where
  "lunchStartMin req =
     (case lunchBreak req of
        None \<Rightarrow> Some 0
      | Some l \<Rightarrow> if lunch_start l \<noteq> [] \<and> lunch_end l \<noteq> []
                  then parseTimeToMinutes (lunch_start l) else Some 0)"

definition lunchEndMin :: "generate_request \<Rightarrow> int option" where
  "lunchEndMin req =
     (case lunchBreak req of
        None \<Rightarrow> Some 0
      | Some l \<Rightarrow> if lunch_start l \<noteq> [] \<and> lunch_end l \<noteq> []
                  then parseTimeToMinutes (lunch_end l) else Some 0)"

definition lunch_window :: "generate_request \<Rightarrow> (int \<times> int) option" where
  "lunch_window req =
     (case (lunchBreak req, lunchStartMin req, lunchEndMin req) of
        (Some l, Some ls, Some le) \<Rightarrow> if ls \<noteq> 0 \<and> le \<noteq> 0 then Some (ls, le) else None
      | _ \<Rightarrow> None)"

text \<open>\<^verbatim>\<open>currMin < lunchEndMin && slotEndMin > lunchStartMin\<close>, under the test above.\<close>

definition in_lunch :: "(int \<times> int) option \<Rightarrow> int \<Rightarrow> int \<Rightarrow> bool" where
  "in_lunch w currMin slotEndMin =
     (case w of None \<Rightarrow> False | Some (ls, le) \<Rightarrow> currMin < le \<and> ls < slotEndMin)"

definition resume :: "(int \<times> int) option \<Rightarrow> int \<Rightarrow> int" where
  "resume w currMin = (case w of None \<Rightarrow> currMin | Some (ls, le) \<Rightarrow> le)"

subsection \<open>The expansion\<close>

text \<open>
  The \<^verbatim>\<open>while\<close> loop over one time window of one date. It appends one pair of the date
  and the start minute for each slot it pushes; \<open>None\<close> when the loop never ends.
\<close>

partial_function (option) walk ::
  "int \<Rightarrow> int \<Rightarrow> (int \<times> int) option \<Rightarrow> string \<Rightarrow> int \<Rightarrow> int \<Rightarrow> (string \<times> int) list \<Rightarrow>
   (string \<times> int) list option" where
  "walk dur slotInterval w dateStr endMin currMin acc =
     (if currMin + dur \<le> endMin then
        (if in_lunch w currMin (currMin + dur)
         then walk dur slotInterval w dateStr endMin (resume w currMin) acc
         else walk dur slotInterval w dateStr endMin (currMin + slotInterval)
                (acc @ [(dateStr, currMin)]))
      else Some acc)"

declare walk.simps [code]

text \<open>One time window: a bound that is NaN makes the loop test false at once.\<close>

definition expand_range ::
  "int \<Rightarrow> int \<Rightarrow> (int \<times> int) option \<Rightarrow> string \<Rightarrow> time_range \<Rightarrow> (string \<times> int) list \<Rightarrow>
   (string \<times> int) list option" where
  "expand_range dur slotInterval w dateStr rng acc =
     (case (parseTimeToMinutes (range_startTime rng), parseTimeToMinutes (range_endTime rng)) of
        (Some startMin, Some endMin) \<Rightarrow> walk dur slotInterval w dateStr endMin startMin acc
      | _ \<Rightarrow> Some acc)"

fun for_ranges ::
  "int \<Rightarrow> int \<Rightarrow> (int \<times> int) option \<Rightarrow> string \<Rightarrow> time_range list \<Rightarrow> (string \<times> int) list \<Rightarrow>
   (string \<times> int) list option" where
  "for_ranges dur slotInterval w dateStr [] acc = Some acc"
| "for_ranges dur slotInterval w dateStr (rng # rs) acc =
     (case expand_range dur slotInterval w dateStr rng acc of
        None \<Rightarrow> None
      | Some acc' \<Rightarrow> for_ranges dur slotInterval w dateStr rs acc')"

fun for_dates ::
  "int \<Rightarrow> int \<Rightarrow> (int \<times> int) option \<Rightarrow> time_range list \<Rightarrow> string list \<Rightarrow> (string \<times> int) list \<Rightarrow>
   (string \<times> int) list option" where
  "for_dates dur slotInterval w rs [] acc = Some acc"
| "for_dates dur slotInterval w rs (dateStr # ds) acc =
     (case for_ranges dur slotInterval w dateStr rs acc of
        None \<Rightarrow> None
      | Some acc' \<Rightarrow> for_dates dur slotInterval w rs ds acc')"

text \<open>
  The target dates: the explicit list with the strings that do not parse dropped, or the
  recurring walk. \<open>Inl\<close> is the response of an early return.
\<close>

definition resolve_dates :: "generate_request \<Rightarrow> (response + string list) option" where
  "resolve_dates req =
     (case dates req of
        Some (x # xs) \<Rightarrow> Some (Inr (filter (\<lambda>d. d \<noteq> [] \<and> parseDateStr d \<noteq> None) (x # xs)))
      | _ \<Rightarrow>
        if or_str (startDate req) [] \<noteq> [] then
          (case (parseDateStr (or_str (startDate req) []),
                 if or_str (endDate req) [] \<noteq> [] then parseDateStr (or_str (endDate req) [])
                 else parseDateStr (or_str (startDate req) [])) of
             (Some start, Some stop) \<Rightarrow> map_option Inr (date_walk (days req) stop start [])
           | _ \<Rightarrow> Some (Inl (json (Error ''Invalid date format'') 400)))
        else Some (Inr []))"

definition slotInterval :: "generate_request \<Rightarrow> int" where
  "slotInterval req = gen_duration req + or_num (breakTime req) 0"

text \<open>The Calendar Expander: the pairs of date and start minute, in the order pushed.\<close>

definition expand :: "generate_request \<Rightarrow> (response + (string \<times> int) list) option" where
  "expand req =
     (case resolve_dates req of
        None \<Rightarrow> None
      | Some (Inl r) \<Rightarrow> Some (Inl r)
      | Some (Inr targetDateStrs) \<Rightarrow>
          if targetDateStrs = [] then Some (Inl (json (Error ''No valid dates provided'') 400))
          else map_option Inr
                 (for_dates (gen_duration req) (slotInterval req) (lunch_window req) (ranges req)
                    targetDateStrs []))"

subsection \<open>The slot rows and their insertion\<close>

text \<open>The row pushed for a pair: \<^verbatim>\<open>[uuid(), subjectId, `${dateStr} ${minutesToTimeStr(currMin)}`,
  duration, capacity, 0, sanitizeString(location || '')]\<close>.\<close>

definition slot_of :: "generate_request \<Rightarrow> string \<times> int \<Rightarrow> slot_row" where
  "slot_of req p =
     \<lparr>subject_id = gen_subjectId req,
      start_time = fst p @ '' '' @ minutesToTimeStr (snd p),
      duration = gen_duration req, max_capacity = capacity req, current_bookings = 0,
      location = sanitizeString (or_str (gen_location req) [])\<rparr>"

definition rows_of :: "env \<Rightarrow> generate_request \<Rightarrow> (string \<times> int) list \<Rightarrow> (string \<times> slot_row) list" where
  "rows_of e req ps = map (\<lambda>(i, p). (uuid e i, slot_of req p)) (enumerate 0 ps)"

function batches :: "'a list \<Rightarrow> 'a list list" where
  "batches xs = (if xs = [] then [] else take 50 xs # batches (drop 50 xs))"
  by pat_completeness auto
termination
  by (relation "measure length") auto

declare batches.simps [simp del]

text \<open>One multi-row \<^verbatim>\<open>INSERT INTO slots\<close>: it fails as a whole on a primary key that is
  taken or repeated.\<close>

definition insert_slots :: "(string \<times> slot_row) list \<Rightarrow> db \<Rightarrow> db option" where
  "insert_slots rows d =
     (if distinct (map fst rows) \<and> list_all (\<lambda>k. slots d k = None) (map fst rows)
      then Some (d\<lparr>slots := slots d ++ map_of rows\<rparr>) else None)"

text \<open>The batches in turn; \<open>False\<close> when one throws, the earlier ones staying written.\<close>

fun insert_all :: "env \<Rightarrow> nat \<Rightarrow> (string \<times> slot_row) list list \<Rightarrow> db \<Rightarrow> bool \<times> db" where
  "insert_all e i [] d = (True, d)"
| "insert_all e i (b # bs) d =
     (case (if fails e (InsertBatch i) then None else insert_slots b d) of
        None \<Rightarrow> (False, d)
      | Some d' \<Rightarrow> insert_all e (Suc i) bs d')"

definition generate :: "env \<Rightarrow> generate_request \<Rightarrow> db \<Rightarrow> (response \<times> db) option" where
  "generate e req d =
     (if \<not> validateString (gen_subjectId req) 1 36 then Some (json (Error ''Invalid subject ID'') 400, d)
      else (case expand req of
         None \<Rightarrow> None
       | Some (Inl r) \<Rightarrow> Some (r, d)
       | Some (Inr ps) \<Rightarrow>
           if ps = [] then Some (json (Error ''No slots generated'') 400, d)
           else (case insert_all e 0 (batches (rows_of e req ps)) d of
              (False, d') \<Rightarrow> Some (server_error, d')
            | (True, d') \<Rightarrow> Some (json (SuccessCount (length ps)) 200, d'))))"

section \<open>Vocabulary of the properties\<close>

text \<open>No statement of the request is failed by the storage layer.\<close>

definition no_faults :: "env \<Rightarrow> bool" where
  "no_faults e = (\<forall>s. \<not> fails e s)"




text \<open>A slot with one seat, two requesters and an environment, for the concrete runs.\<close>

definition ex_slot :: slot_row where
  "ex_slot = \<lparr>subject_id = ''math'', start_time = ''2024-02-29 09:00:00'', duration = 20,
              max_capacity = 1, current_bookings = 0, location = []\<rparr>"

definition ex_db :: db where
  "ex_db = \<lparr>slots = [''slot-1'' \<mapsto> ex_slot], bookings = []\<rparr>"

definition ex_request :: "string \<Rightarrow> booking_request" where
  "ex_request sid = \<lparr>slotId = ''slot-1'', subjectId = ''math'', studentName = ''Ann Lee'',
     studentId = sid, studentEmail = ''ann@uni.example'', customAnswers = ''{}''\<rparr>"

definition ex_env :: "string \<Rightarrow> bool \<Rightarrow> env" where
  "ex_env k insert_fails = \<lparr>uuid = (\<lambda>n. k @ digits n), fails = (\<lambda>s. s = InsertBooking \<and> insert_fails),
     email_configured = False, toISOString = Some\<rparr>"


text \<open>The leap-day scenario of the specification, and the same request with duration 0.\<close>

definition scenario :: generate_request where
  "scenario = \<lparr>gen_subjectId = ''math'', dates = None, startDate = Some ''2024-02-26'',
     endDate = Some ''2024-03-02'',
     timeRanges = Some [\<lparr>range_startTime = ''09:00'', range_endTime = ''10:00''\<rparr>],
     startTime = None, endTime = None, gen_duration = 20, capacity = 1, days = Some [4],
     breakTime = Some 0, gen_location = None, lunchBreak = None\<rparr>"


text \<open>Further requests for the concrete runs: a lunch window from midnight, a recurring
  request without end date, an explicit list of dates, and requests without time windows,
  with a window shorter than one slot, and without a date that parses.\<close>

definition midnight_lunch :: generate_request where
  "midnight_lunch = \<lparr>gen_subjectId = ''math'', dates = Some [''2024-03-04''], startDate = None,
     endDate = None,
     timeRanges = Some [\<lparr>range_startTime = ''00:00'', range_endTime = ''02:00''\<rparr>],
     startTime = None, endTime = None, gen_duration = 30, capacity = 1, days = None,
     breakTime = Some 0, gen_location = None,
     lunchBreak = Some \<lparr>lunch_start = ''00:00'', lunch_end = ''01:00''\<rparr>\<rparr>"


definition listed :: generate_request where
  "listed = scenario\<lparr>dates := Some [''2024-03-03'', ''tomorrow'', ''2024-03-04'']\<rparr>"

definition no_windows :: generate_request where
  "no_windows = scenario\<lparr>timeRanges := Some []\<rparr>"

definition short_window :: generate_request where
  "short_window = scenario\<lparr>timeRanges := Some [\<lparr>range_startTime = ''09:00'', range_endTime = ''09:10''\<rparr>]\<rparr>"

definition no_dates :: generate_request where
  "no_dates = scenario\<lparr>dates := Some [''tomorrow'']\<rparr>"


text \<open>The overlap of a slot with the lunch interval, in the words of the specification:
  \<^verbatim>\<open>slotStart < lunchEnd AND slotEnd > lunchStart\<close>.\<close>

definition overlaps :: "int \<Rightarrow> int \<Rightarrow> int \<Rightarrow> int \<Rightarrow> bool" where
  "overlaps slotStart slotEnd lunchStart lunchEnd = (slotStart < lunchEnd \<and> slotEnd > lunchStart)"

text \<open>
  The Gregorian calendar in the words of the specification: a year is a leap year iff it
  is divisible by 4 and not by 100, unless it is also divisible by 400; the lengths of the
  months; the dates of the calendar from year 1 on; and the day after a date.
\<close>

definition leap_year :: "int \<Rightarrow> bool" where
  "leap_year y = ((4 dvd y \<and> \<not> 100 dvd y) \<or> 400 dvd y)"

definition month_length :: "int \<Rightarrow> int \<Rightarrow> int" where
  "month_length y m =
     (if m = 2 then (if leap_year y then 29 else 28)
      else if m = 4 \<or> m = 6 \<or> m = 9 \<or> m = 11 then 30 else 31)"

definition valid_date :: "int \<Rightarrow> int \<Rightarrow> int \<Rightarrow> bool" where
  "valid_date y m d = (1 \<le> y \<and> 1 \<le> m \<and> m \<le> 12 \<and> 1 \<le> d \<and> d \<le> month_length y m)"

definition next_day :: "int \<Rightarrow> int \<Rightarrow> int \<Rightarrow> date" where
  "next_day y m d =
     (if d < month_length y m then \<lparr>year = y, month = m, day = d + 1\<rparr>
      else if m < 12 then \<lparr>year = y, month = m + 1, day = 1\<rparr>
      else \<lparr>year = y + 1, month = 1, day = 1\<rparr>)"

text \<open>The part of Zeller's sum that depends on the year alone.\<close>

definition zeller_year :: "int \<Rightarrow> int" where
  "zeller_year y = y mod 100 + (y mod 100) div 4 + (y div 100) div 4 - 2 * (y div 100)"

text \<open>The invariant of a slot row, and of the row stored under an id, if there is one.\<close>

definition slot_inv :: "slot_row \<Rightarrow> bool" where
  "slot_inv r = (0 \<le> current_bookings r \<and> current_bookings r \<le> max_capacity r)"

definition inv_at :: "db \<Rightarrow> string \<Rightarrow> bool" where
  "inv_at d sid = (case slots d sid of None \<Rightarrow> True | Some r \<Rightarrow> slot_inv r)"

text \<open>A staff edit that leaves the capacity alone or sets it no lower than the counter of
  the slot it edits.\<close>

definition edit_keeps_capacity :: "slot_update \<Rightarrow> string \<Rightarrow> db \<Rightarrow> bool" where
  "edit_keeps_capacity u sid d =
     (case (upd_maxCapacity u, slots d sid) of
        (Some m, Some r) \<Rightarrow> current_bookings r \<le> m
      | _ \<Rightarrow> True)"

text \<open>A full slot, edits that lower and raise its capacity, and a creation request with a
  negative capacity.\<close>

definition full_db :: db where
  "full_db = \<lparr>slots = [''slot-1'' \<mapsto> ex_slot\<lparr>current_bookings := 1\<rparr>], bookings = []\<rparr>"

definition lower_capacity :: slot_update where
  "lower_capacity = \<lparr>upd_maxCapacity = Some 0, upd_startTime = None, upd_duration = None,
     upd_location = None, upd_subjectId = None\<rparr>"

definition negative_capacity :: slot_request where
  "negative_capacity = \<lparr>new_subjectId = ''math'', new_startTime = Some ''2024-02-29T09:00:00Z'',
     new_duration = None, new_maxCapacity = Some (- 1), new_location = None\<rparr>"

definition raise_capacity :: slot_update where
  "raise_capacity = lower_capacity\<lparr>upd_maxCapacity := Some 2\<rparr>"

section \<open>Admission: the booking handler\<close>

lemma update_increment_hit:
  "slots d sid = Some s \<Longrightarrow> current_bookings s < max_capacity s \<Longrightarrow>
   update_increment sid (current_bookings s) d =
     d\<lparr>slots := (slots d)(sid \<mapsto> s\<lparr>current_bookings := current_bookings s + 1\<rparr>)\<rparr>"
  by (simp add: update_increment_def)

lemma bookings_update_increment [simp]: "bookings (update_increment sid n d) = bookings d"
  by (simp add: update_increment_def split: option.splits)

lemma bookings_update_decrement [simp]: "bookings (update_decrement sid d) = bookings d"
  by (simp add: update_decrement_def split: option.splits)

lemma select_existing_update_increment [simp]:
  "select_existing sid st (update_increment sid' n d) = select_existing sid st d"
  by (simp add: select_existing_def)

lemma decrement_increment:
  assumes "slots d sid = Some s" "0 \<le> current_bookings s" "current_bookings s < max_capacity s"
  shows "update_decrement sid (update_increment sid (current_bookings s) d) = d"
proof -
  have "(slots d)(sid \<mapsto> s) = slots d" using assms(1) by (simp add: fun_upd_idem)
  with assms show ?thesis
    by (simp add: update_increment_hit update_decrement_def)
qed

text \<open>
  C1. A slot with \<open>max_capacity = 1\<close> and \<open>current_bookings = 0\<close> is booked twice in a row
  by two requesters whose stored external ids differ, neither of them holding a booking on
  the slot, with requests that pass validation and a storage layer that fails no
  statement. The first attempt answers 200 with the booking id, the second answers
  409 and leaves the database as the first left it, and the counter is then 1.
\<close>

theorem sequential_bookings_capacity_one:
  assumes "validate_booking r1 = None" and "validate_booking r2 = None"
    and "slotId r1 = sid" and "slotId r2 = sid"
    and "slots d sid = Some s" and "max_capacity s = 1" and "current_bookings s = 0"
    and "sanitizeString (studentId r1) \<noteq> sanitizeString (studentId r2)"
    and "select_existing sid (sanitizeString (studentId r1)) d = []"
    and "select_existing sid (sanitizeString (studentId r2)) d = []"
    and "no_faults e1" and "no_faults e2"
    and "uuid e1 0 \<notin> set (map booking_id (bookings d))"
  shows "fst (post_bookings e1 r1 d) = json (SuccessBooking (uuid e1 0)) 200 \<and>
         post_bookings e2 r2 (snd (post_bookings e1 r1 d)) =
           (json (Error ''Sorry, this slot is fully booked!'') 409, snd (post_bookings e1 r1 d)) \<and>
         map_option current_bookings (slots (snd (post_bookings e1 r1 d)) sid) = Some 1"
proof -
  let ?d1 = "update_increment sid 0 d"
  let ?d2 = "?d1\<lparr>bookings := bookings ?d1 @ [new_booking e1 r1]\<rparr>"
  have inc: "?d1 = d\<lparr>slots := (slots d)(sid \<mapsto> s\<lparr>current_bookings := 1\<rparr>)\<rparr>"
    using update_increment_hit [of d sid s] assms(5-7) by simp
  have ins: "insert_booking (new_booking e1 r1) ?d1 = Some ?d2"
    using assms(13) by (simp add: insert_booking_def new_booking_def)
  have create: "create_booking e1 r1 ?d1 = (json (SuccessBooking (uuid e1 0)) 200, ?d2)"
    using assms(11) ins by (simp add: create_booking_def no_faults_def)
  have first: "post_bookings e1 r1 d = (json (SuccessBooking (uuid e1 0)) 200, ?d2)"
    using assms(1,3,5-7,9,11) create
    by (simp add: post_bookings_def no_faults_def inc)
  have slot2: "slots ?d2 sid = Some (s\<lparr>current_bookings := 1\<rparr>)"
    by (simp add: inc)
  have none2: "select_existing sid (sanitizeString (studentId r2)) ?d2 = []"
    using assms(3,8,10) by (simp add: select_existing_def new_booking_def)
  have second: "post_bookings e2 r2 ?d2 = (json (Error ''Sorry, this slot is fully booked!'') 409, ?d2)"
    using assms(2,4,6,12) slot2 none2
    by (simp add: post_bookings_def no_faults_def)
  show ?thesis using first second slot2 by simp
qed

text \<open>
  C2. When the insertion of the booking row fails (a storage fault, or a primary key that
  is taken) after the conditional increment went through, and the compensating update
  itself runs, the handler answers with the server error, the database it leaves is the
  incremented one decremented again, and that is the database before the attempt: the
  counter (non-negative before the attempt) is back at its value and no booking row was
  added.
\<close>

theorem insert_failure_compensated:
  assumes "validate_booking data = None"
    and "select_existing (slotId data) (sanitizeString (studentId data)) d = []"
    and "slots d (slotId data) = Some s"
    and "0 \<le> current_bookings s" and "current_bookings s < max_capacity s"
    and "\<not> fails e SelectExisting" and "\<not> fails e SelectSlot"
    and "\<not> fails e UpdateIncrement" and "\<not> fails e SelectVerify"
    and "fails e InsertBooking \<or> uuid e 0 \<in> set (map booking_id (bookings d))"
    and "\<not> fails e UpdateCompensate"
  shows "post_bookings e data d =
           (server_error,
            update_decrement (slotId data) (update_increment (slotId data) (current_bookings s) d)) \<and>
         map_option current_bookings
           (slots (update_increment (slotId data) (current_bookings s) d) (slotId data)) =
             Some (current_bookings s + 1) \<and>
         update_decrement (slotId data) (update_increment (slotId data) (current_bookings s) d) = d"
proof -
  let ?sid = "slotId data"
  let ?d1 = "update_increment ?sid (current_bookings s) d"
  have inc: "?d1 = d\<lparr>slots := (slots d)(?sid \<mapsto> s\<lparr>current_bookings := current_bookings s + 1\<rparr>)\<rparr>"
    using update_increment_hit assms(3,5) by simp
  have create: "create_booking e data ?d1 = (server_error, update_decrement ?sid ?d1)"
    using assms(10,11) by (auto simp add: create_booking_def insert_booking_def new_booking_def)
  have run: "post_bookings e data d = (server_error, update_decrement ?sid ?d1)"
    using assms(1-3,5-9) create
    by (simp add: post_bookings_def inc)
  have restored: "update_decrement ?sid ?d1 = d"
    using decrement_increment assms(3-5) by simp
  show ?thesis using run restored by (simp add: inc)
qed


lemma ex_env_uuid0: "uuid (ex_env k f) 0 = k @ ''0''"
  by (simp add: ex_env_def digits.simps [of 0] digit_char_def)

lemma fails_ex_env: "fails (ex_env k f) s = (s = InsertBooking \<and> f)"
  by (simp add: ex_env_def)

lemma validate_ex_request: "validate_booking (ex_request ''1001'') = None"
  by (simp add: validate_booking_def ex_request_def validateString_def validateEmail_def trim_def
      is_space_def plain_def)

lemma validate_ex_request2: "validate_booking (ex_request ''1002'') = None"
  by (simp add: validate_booking_def ex_request_def validateString_def validateEmail_def trim_def
      is_space_def plain_def)

theorem sequential_bookings_capacity_one_witness:
  "fst (post_bookings (ex_env ''b-'' False) (ex_request ''1001'') ex_db) = json (SuccessBooking ''b-0'') 200 \<and>
   fst (post_bookings (ex_env ''c-'' False) (ex_request ''1002'')
          (snd (post_bookings (ex_env ''b-'' False) (ex_request ''1001'') ex_db))) =
     json (Error ''Sorry, this slot is fully booked!'') 409 \<and>
   map_option current_bookings
     (slots (snd (post_bookings (ex_env ''b-'' False) (ex_request ''1001'') ex_db)) ''slot-1'') = Some 1"
proof -
  have h3: "slotId (ex_request ''1001'') = ''slot-1''" and h4: "slotId (ex_request ''1002'') = ''slot-1''"
    by (simp_all add: ex_request_def)
  have h5: "slots ex_db ''slot-1'' = Some ex_slot"
    by (simp add: ex_db_def)
  have h6: "max_capacity ex_slot = 1" and h7: "current_bookings ex_slot = 0"
    by (simp_all add: ex_slot_def)
  have h8: "sanitizeString (studentId (ex_request ''1001'')) \<noteq> sanitizeString (studentId (ex_request ''1002''))"
    by (simp add: ex_request_def sanitizeString_def trim_def is_space_def)
  have h9: "select_existing ''slot-1'' (sanitizeString (studentId (ex_request ''1001''))) ex_db = []"
    and h10: "select_existing ''slot-1'' (sanitizeString (studentId (ex_request ''1002''))) ex_db = []"
    by (simp_all add: select_existing_def ex_db_def)
  have h11: "no_faults (ex_env ''b-'' False)" and h12: "no_faults (ex_env ''c-'' False)"
    by (simp_all add: no_faults_def fails_ex_env)
  have h13: "uuid (ex_env ''b-'' False) 0 \<notin> set (map booking_id (bookings ex_db))"
    by (simp add: ex_db_def)
  from sequential_bookings_capacity_one
    [OF validate_ex_request validate_ex_request2 h3 h4 h5 h6 h7 h8 h9 h10 h11 h12 h13]
  show ?thesis by (simp add: ex_env_uuid0)
qed

theorem insert_failure_compensated_witness:
  "post_bookings (ex_env ''b-'' True) (ex_request ''1001'') ex_db = (server_error, ex_db) \<and>
   map_option current_bookings (slots (update_increment ''slot-1'' 0 ex_db) ''slot-1'') = Some 1"
proof -
  have h2: "select_existing (slotId (ex_request ''1001'')) (sanitizeString (studentId (ex_request ''1001''))) ex_db = []"
    by (simp add: select_existing_def ex_db_def)
  have h3: "slots ex_db (slotId (ex_request ''1001'')) = Some ex_slot"
    by (simp add: ex_db_def ex_request_def)
  have h4: "0 \<le> current_bookings ex_slot" and h5: "current_bookings ex_slot < max_capacity ex_slot"
    by (simp_all add: ex_slot_def)
  have f: "\<not> fails (ex_env ''b-'' True) SelectExisting" "\<not> fails (ex_env ''b-'' True) SelectSlot"
    "\<not> fails (ex_env ''b-'' True) UpdateIncrement" "\<not> fails (ex_env ''b-'' True) SelectVerify"
    "fails (ex_env ''b-'' True) InsertBooking \<or>
       uuid (ex_env ''b-'' True) 0 \<in> set (map booking_id (bookings ex_db))"
    "\<not> fails (ex_env ''b-'' True) UpdateCompensate"
    by (simp_all add: fails_ex_env)
  from insert_failure_compensated [OF validate_ex_request h2 h3 h4 h5 f]
  show ?thesis
    by (simp add: ex_request_def ex_slot_def)
qed










section \<open>The walk over a time window\<close>











section \<open>The lunch window\<close>

lemma walk_avoids_lunch:
  assumes "walk dur si w dateStr endMin currMin acc = Some r"
  shows "\<forall>p \<in> set r. p \<in> set acc \<or> \<not> in_lunch w (snd p) (snd p + dur)"
proof (rule walk.raw_induct
    [where P = "\<lambda>dur si w dateStr endMin currMin acc r.
        \<forall>p \<in> set r. p \<in> set acc \<or> \<not> in_lunch w (snd p) (snd p + dur)",
     OF _ assms])
  fix f dur si w dateStr endMin currMin acc r
  assume ih: "\<And>dur si w dateStr endMin currMin acc r.
      f dur si w dateStr endMin currMin acc = Some r \<Longrightarrow>
      \<forall>p \<in> set r. p \<in> set acc \<or> \<not> in_lunch w (snd p) (snd p + dur)"
    and body: "(if currMin + dur \<le> endMin
      then if in_lunch w currMin (currMin + dur)
           then f dur si w dateStr endMin (resume w currMin) acc
           else f dur si w dateStr endMin (currMin + si) (acc @ [(dateStr, currMin)])
      else Some acc) = Some r"
  show "\<forall>p \<in> set r. p \<in> set acc \<or> \<not> in_lunch w (snd p) (snd p + dur)"
  proof (cases "currMin + dur \<le> endMin")
    case False
    with body show ?thesis by simp
  next
    case True
    show ?thesis
    proof (cases "in_lunch w currMin (currMin + dur)")
      case True
      with body \<open>currMin + dur \<le> endMin\<close> ih [of dur si w dateStr endMin "resume w currMin" acc r]
      show ?thesis by simp
    next
      case False
      with body \<open>currMin + dur \<le> endMin\<close>
        ih [of dur si w dateStr endMin "currMin + si" "acc @ [(dateStr, currMin)]" r]
      show ?thesis by auto
    qed
  qed
qed

lemma in_lunch_overlaps: "in_lunch (Some (ls, le)) c e = overlaps c e ls le"
  by (auto simp add: in_lunch_def overlaps_def)

lemma walk_resumes_at_lunch_end:
  "currMin + dur \<le> endMin \<Longrightarrow> currMin < le \<Longrightarrow> ls < currMin + dur \<Longrightarrow>
   walk dur si (Some (ls, le)) dateStr endMin currMin acc =
   walk dur si (Some (ls, le)) dateStr endMin le acc"
  by (subst walk.simps) (simp add: in_lunch_def resume_def)

text \<open>
  C5. With a lunch window from 00:00 to 01:00, a time window from 00:00 to 02:00 and a
  duration of 30 minutes, the expansion emits the slots starting at minute 0 and minute
  30, which overlap the lunch window: its start parses to 0 minutes, which the test
  \<^verbatim>\<open>lunchStartMin && lunchEndMin\<close> takes for no lunch window at all.
\<close>

theorem midnight_lunch_not_excluded:
  "lunchBreak midnight_lunch = Some \<lparr>lunch_start = ''00:00'', lunch_end = ''01:00''\<rparr> \<and>
   lunchStartMin midnight_lunch = Some 0 \<and> lunchEndMin midnight_lunch = Some 60 \<and>
   gen_duration midnight_lunch = 30 \<and>
   expand midnight_lunch =
     Some (Inr [(''2024-03-04'', 0), (''2024-03-04'', 30), (''2024-03-04'', 60), (''2024-03-04'', 90)]) \<and>
   overlaps 0 (0 + 30) 0 60 \<and> overlaps 30 (30 + 30) 0 60"
  by code_simp

section \<open>Weekdays and the day after a date\<close>

lemma div4_step: "(k::int) div 4 = (k - 1) div 4 + (if 4 dvd k then 1 else 0)"
  by presburger


lemma js_rem_nonneg: "0 \<le> a \<Longrightarrow> 0 < b \<Longrightarrow> js_rem a b = a mod b"
  by (simp add: js_rem_def)

lemma js_rem_twice: "js_rem (js_rem x 7 + 6) 7 = (x + 6) mod 7"
proof (cases "x < 0")
  case False
  then have "js_rem x 7 = x mod 7" by (simp add: js_rem_def)
  moreover have "0 \<le> x mod 7 + 6" by simp
  ultimately show ?thesis by (simp add: js_rem_def mod_simps)
next
  case True
  then have a: "js_rem x 7 = - ((- x) mod 7)" by (simp add: js_rem_def)
  have "(- x) mod 7 < 7" by simp
  then have b: "\<not> (- ((- x) mod 7) + 6 < 0)" by linarith
  then have "js_rem (js_rem x 7 + 6) 7 = (6 - (- x) mod 7) mod 7"
    unfolding a using b by (simp add: js_rem_def)
  also have "\<dots> = (6 - (- x)) mod 7" by (simp add: mod_simps)
  finally show ?thesis by (simp add: add.commute)
qed

lemma zeller_year_step:
  "zeller_year y mod 7 = (zeller_year (y - 1) + (if leap_year y then 2 else 1)) mod 7"
proof -
  define j k where "j = y div 100" and "k = y mod 100"
  have y: "y = k + 100 * j" by (simp add: j_def k_def)
  have k: "0 \<le> k" "k < 100" by (simp_all add: k_def)
  have c: "(4::int) dvd 100 * j" by simp
  have d4: "4 dvd y \<longleftrightarrow> 4 dvd k"
    unfolding y using c by (simp add: dvd_add_left_iff)
  have d100: "100 dvd y \<longleftrightarrow> k = 0"
    by (simp add: k_def dvd_eq_mod_eq_0)
  show ?thesis
  proof (cases "k = 0")
    case True
    have e: "y - 1 = 99 + 100 * (j - 1)" using y True by simp
    have "(99 + 100 * (j - 1)) mod 100 = 99 mod 100"
      by (rule mod_mult_self2)
    moreover have "(99 + 100 * (j - 1)) div 100 = (j - 1) + 99 div 100"
      by (rule div_mult_self2) simp
    ultimately have p: "(y - 1) mod 100 = 99" "(y - 1) div 100 = j - 1"
      unfolding e by simp_all
    have "400 dvd y \<longleftrightarrow> (100 * 4) dvd (100 * j)" using y True by simp
    also have "\<dots> \<longleftrightarrow> 4 dvd j" by (simp only: dvd_mult_cancel_left) simp
    finally have l: "leap_year y = (4 dvd j)"
      using d4 d100 True by (auto simp add: leap_year_def)
    have "zeller_year (y - 1) + (if leap_year y then 2 else 1) = zeller_year y + 126"
      using div4_step [of j] True
      by (simp add: zeller_year_def p l j_def [symmetric] k_def [symmetric])
    moreover have "(zeller_year y + 7 * 18) mod 7 = zeller_year y mod 7"
      by (rule mod_mult_self2)
    ultimately show ?thesis by simp
  next
    case False
    with k have r: "0 \<le> k - 1" "k - 1 < 100" by simp_all
    have e: "y - 1 = (k - 1) + 100 * j" using y by simp
    have "((k - 1) + 100 * j) mod 100 = (k - 1) mod 100"
      by (rule mod_mult_self2)
    moreover have "((k - 1) + 100 * j) div 100 = j + (k - 1) div 100"
      by (rule div_mult_self2) simp
    ultimately have p: "(y - 1) mod 100 = k - 1" "(y - 1) div 100 = j"
      unfolding e using r by simp_all
    have "\<not> 400 dvd y"
    proof
      assume "400 dvd y"
      moreover have "(100::int) dvd 400" by simp
      ultimately have "100 dvd y" by (rule dvd_trans [rotated])
      with d100 False show False by simp
    qed
    then have l: "leap_year y = (4 dvd k)"
      using d4 d100 False by (simp add: leap_year_def)
    have "zeller_year (y - 1) + (if leap_year y then 2 else 1) = zeller_year y"
      using div4_step [of k]
      by (simp add: zeller_year_def p l j_def [symmetric] k_def [symmetric])
    then show ?thesis by simp
  qed
qed

lemma getDayOfWeek_mod:
  assumes "1 \<le> y"
  shows "getDayOfWeek y m d =
     (if m < 3 then (d + (13 * (m + 13)) div 5 + zeller_year (y - 1) + 6) mod 7
      else (d + (13 * (m + 1)) div 5 + zeller_year y + 6) mod 7)"
proof (cases "m < 3")
  case True
  have r: "js_rem (y - 1) 100 = (y - 1) mod 100"
    using assms by (simp add: js_rem_nonneg)
  have "getDayOfWeek y m d =
      js_rem (js_rem (d + (13 * (m + 12 + 1)) div 5 + js_rem (y - 1) 100 + js_rem (y - 1) 100 div 4 +
        (y - 1) div 100 div 4 - 2 * ((y - 1) div 100)) 7 + 6) 7"
    using True by (simp add: getDayOfWeek_def Let_def)
  also have "\<dots> = (d + (13 * (m + 12 + 1)) div 5 + js_rem (y - 1) 100 + js_rem (y - 1) 100 div 4 +
        (y - 1) div 100 div 4 - 2 * ((y - 1) div 100) + 6) mod 7"
    by (rule js_rem_twice)
  also have "d + (13 * (m + 12 + 1)) div 5 + js_rem (y - 1) 100 + js_rem (y - 1) 100 div 4 +
        (y - 1) div 100 div 4 - 2 * ((y - 1) div 100) = d + (13 * (m + 13)) div 5 + zeller_year (y - 1)"
    unfolding r by (simp add: zeller_year_def)
  finally show ?thesis using True by simp
next
  case False
  have r: "js_rem y 100 = y mod 100"
    using assms by (simp add: js_rem_nonneg)
  have "getDayOfWeek y m d =
      js_rem (js_rem (d + (13 * (m + 1)) div 5 + js_rem y 100 + js_rem y 100 div 4 +
        y div 100 div 4 - 2 * (y div 100)) 7 + 6) 7"
    using False by (simp add: getDayOfWeek_def Let_def)
  also have "\<dots> = (d + (13 * (m + 1)) div 5 + js_rem y 100 + js_rem y 100 div 4 +
        y div 100 div 4 - 2 * (y div 100) + 6) mod 7"
    by (rule js_rem_twice)
  also have "d + (13 * (m + 1)) div 5 + js_rem y 100 + js_rem y 100 div 4 +
        y div 100 div 4 - 2 * (y div 100) = d + (13 * (m + 1)) div 5 + zeller_year y"
    unfolding r by (simp add: zeller_year_def)
  finally show ?thesis using False by simp
qed


lemma mod7_shift: "(a::int) = b + 7 * c \<Longrightarrow> a mod 7 = b mod 7"
  by simp


lemma m12: "1 \<le> (m::int) \<Longrightarrow> m \<le> 12 \<Longrightarrow> m = 1 \<or> m = 2 \<or> m = 3 \<or> m = 4 \<or> m = 5 \<or> m = 6 \<or> m = 7 \<or> m = 8
    \<or> m = 9 \<or> m = 10 \<or> m = 11 \<or> m = 12"
  by presburger


lemma weekday_of_next_day:
  assumes "valid_date y m d"
  shows "getDayOfWeek (year (next_day y m d)) (month (next_day y m d)) (day (next_day y m d)) =
         (getDayOfWeek y m d + 1) mod 7"
proof -
  from assms have v: "1 \<le> y" "1 \<le> m" "m \<le> 12" "1 \<le> d" "d \<le> month_length y m"
    by (simp_all add: valid_date_def)
  have y1: "1 \<le> y + 1" using v by simp
  show ?thesis
  proof (cases "d < month_length y m")
    case True
    then show ?thesis
      using v by (simp add: next_day_def getDayOfWeek_mod mod_simps)
  next
    case False
    with v have e: "d = month_length y m" by simp
    from zeller_year_step [of y] obtain c where
      z: "zeller_year y = zeller_year (y - 1) + (if leap_year y then 2 else 1) + 7 * c"
      by (metis mod_eq_dvd_iff dvd_def diff_eq_eq add.commute)
    from m12 [OF v(2,3)] show ?thesis
    proof (elim disjE)
      assume m: "m = 2"
      have "7 dvd 7 * c - 56" by (simp add: dvd_diff)
      then show ?thesis
        using v e z m by (simp add: next_day_def getDayOfWeek_mod month_length_def mod_simps
            mod_eq_dvd_iff algebra_simps)
    qed (use v e in \<open>simp_all add: next_day_def getDayOfWeek_mod month_length_def mod_simps
           mod_eq_dvd_iff\<close>)
  qed
qed

lemma isLeap_leap_year: "0 \<le> y \<Longrightarrow> isLeap y = leap_year y"
  by (simp add: isLeap_def leap_year_def js_rem_nonneg dvd_eq_mod_eq_0)

lemma daysInMonth_month_length:
  "1 \<le> m \<Longrightarrow> m \<le> 12 \<Longrightarrow> 0 \<le> y \<Longrightarrow> daysInMonth (isLeap y) m = Some (month_length y m)"
proof -
  assume a: "1 \<le> m" "m \<le> 12" "0 \<le> y"
  from m12 [OF a(1,2)] show ?thesis
    by (elim disjE) (use a in \<open>simp_all add: daysInMonth_def month_length_def isLeap_leap_year\<close>)
qed

lemma month_length_ge: "28 \<le> month_length y m"
  by (simp add: month_length_def)

lemma addDays_next_day:
  assumes "valid_date y m d"
  shows "addDays y m d 1 = next_day y m d"
proof -
  from assms have v: "1 \<le> y" "1 \<le> m" "m \<le> 12" "1 \<le> d" "d \<le> month_length y m"
    by (simp_all add: valid_date_def)
  have dim: "daysInMonth (isLeap y) m = Some (month_length y m)"
    using v by (simp add: daysInMonth_month_length)
  show ?thesis
  proof (cases "d < month_length y m")
    case True
    then show ?thesis
      by (simp add: addDays_def next_day_def addDays_loop.simps [of _ y m "d + 1"] dim)
  next
    case False
    with v have e: "d = month_length y m" by simp
    show ?thesis
    proof (cases "m < 12")
      case True
      have n: "daysInMonth (isLeap y) (m + 1) = Some (month_length y (m + 1))"
        using v True by (simp add: daysInMonth_month_length)
      have "addDays_loop (isLeap y) y (m + 1) 1 = \<lparr>year = y, month = m + 1, day = 1\<rparr>"
        using month_length_ge [of y "m + 1"]
        by (simp add: addDays_loop.simps [of _ y "m + 1" 1] n)
      moreover have "month_length y m < d + 1" "\<not> 12 < m + 1" "d + 1 - month_length y m = 1"
        using True e by simp_all
      then have "addDays_loop (isLeap y) y m (d + 1) = addDays_loop (isLeap y) y (m + 1) 1"
        by (subst addDays_loop.simps) (simp add: dim)
      ultimately show ?thesis
        using True e by (simp add: addDays_def next_day_def)
    next
      case False
      with v have m: "m = 12" by simp
      have n: "daysInMonth (isLeap (y + 1)) 1 = Some 31"
        by (simp add: daysInMonth_def)
      have "addDays_loop (isLeap (y + 1)) (y + 1) 1 1 = \<lparr>year = y + 1, month = 1, day = 1\<rparr>"
        by (simp add: addDays_loop.simps [of _ "y + 1" 1 1] n)
      moreover have "month_length y m < d + 1" "12 < m + 1" "d + 1 - month_length y m = 1"
        using m e by simp_all
      then have "addDays_loop (isLeap y) y m (d + 1) = addDays_loop (isLeap (y + 1)) (y + 1) 1 1"
        by (subst addDays_loop.simps) (simp add: dim)
      ultimately show ?thesis
        using m e by (simp add: addDays_def next_day_def)
    qed
  qed
qed



lemma getDayOfWeek_range:
  "1 \<le> y \<Longrightarrow> 0 \<le> getDayOfWeek y m d \<and> getDayOfWeek y m d \<le> 6"
proof -
  have "\<And>x::int. x mod 7 \<le> 6"
  proof -
    fix x :: int
    have "x mod 7 < 7" by simp
    then show "x mod 7 \<le> 6" by linarith
  qed
  then show "1 \<le> y \<Longrightarrow> 0 \<le> getDayOfWeek y m d \<and> getDayOfWeek y m d \<le> 6"
    by (simp add: getDayOfWeek_mod)
qed

section \<open>The target dates\<close>







lemma resolve_dates_explicit:
  "dates req = Some ds \<Longrightarrow> ds \<noteq> [] \<Longrightarrow>
   resolve_dates req = Some (Inr (filter (\<lambda>d. parseDateStr d \<noteq> None) ds))"
proof -
  assume a: "dates req = Some ds" "ds \<noteq> []"
  have "\<And>d. parseDateStr d \<noteq> None \<Longrightarrow> d \<noteq> []"
    by (auto simp add: parseDateStr_def)
  then have "filter (\<lambda>d. d \<noteq> [] \<and> parseDateStr d \<noteq> None) ds = filter (\<lambda>d. parseDateStr d \<noteq> None) ds"
    by (intro filter_cong) auto
  with a show ?thesis
    by (cases ds) (simp_all add: resolve_dates_def)
qed

text \<open>
  C9. With a non-empty list of explicit dates, the resolved dates are the strings of the
  list that parse, in their order, the others being dropped; and replacing the weekday
  filter by any other changes neither the expansion nor the handler's result.
\<close>

theorem explicit_dates_ignore_days:
  assumes "dates req = Some ds" and "ds \<noteq> []"
  shows "resolve_dates req = Some (Inr (filter (\<lambda>d. parseDateStr d \<noteq> None) ds)) \<and>
         expand (req\<lparr>days := x\<rparr>) = expand req \<and>
         generate e (req\<lparr>days := x\<rparr>) d = generate e req d"
proof -
  have r: "resolve_dates (req\<lparr>days := x\<rparr>) = resolve_dates req"
    using assms resolve_dates_explicit [of req ds] resolve_dates_explicit [of "req\<lparr>days := x\<rparr>" ds]
    by simp
  have k: "gen_duration (req\<lparr>days := x\<rparr>) = gen_duration req"
    "slotInterval (req\<lparr>days := x\<rparr>) = slotInterval req"
    "lunch_window (req\<lparr>days := x\<rparr>) = lunch_window req"
    "ranges (req\<lparr>days := x\<rparr>) = ranges req"
    "gen_subjectId (req\<lparr>days := x\<rparr>) = gen_subjectId req"
    by (simp_all add: slotInterval_def lunch_window_def lunchStartMin_def lunchEndMin_def ranges_def
        split: option.splits list.splits)
  have e: "expand (req\<lparr>days := x\<rparr>) = expand req"
    unfolding expand_def r k by (rule refl)
  have s: "rows_of e (req\<lparr>days := x\<rparr>) = rows_of e req"
    by (simp add: rows_of_def slot_of_def fun_eq_iff)
  have "generate e (req\<lparr>days := x\<rparr>) d = generate e req d"
    unfolding generate_def e s k by (rule refl)
  with e assms resolve_dates_explicit [of req ds] show ?thesis by simp
qed

theorem explicit_dates_ignore_days_witness:
  "days listed = Some [4] \<and> getDayOfWeek 2024 3 3 = 0 \<and> getDayOfWeek 2024 3 4 = 1 \<and>
   resolve_dates listed = Some (Inr [''2024-03-03'', ''2024-03-04'']) \<and>
   expand (listed\<lparr>days := None\<rparr>) = expand listed \<and>
   generate (ex_env ''g-'' False) (listed\<lparr>days := None\<rparr>) ex_db = generate (ex_env ''g-'' False) listed ex_db \<and>
   expand listed = Some (Inr [(''2024-03-03'', 540), (''2024-03-03'', 560), (''2024-03-03'', 580),
                             (''2024-03-04'', 540), (''2024-03-04'', 560), (''2024-03-04'', 580)])"
proof -
  have a: "dates listed = Some [''2024-03-03'', ''tomorrow'', ''2024-03-04'']"
    and b: "[''2024-03-03'', ''tomorrow'', ''2024-03-04''] \<noteq> []"
    by (simp_all add: listed_def scenario_def)
  have f: "filter (\<lambda>d. parseDateStr d \<noteq> None) [''2024-03-03'', ''tomorrow'', ''2024-03-04''] =
      [''2024-03-03'', ''2024-03-04'']"
    by code_simp
  have g: "days listed = Some [4]" by (simp add: listed_def scenario_def)
  have w: "getDayOfWeek 2024 3 3 = 0" "getDayOfWeek 2024 3 4 = 1" by code_simp+
  have x: "expand listed = Some (Inr [(''2024-03-03'', 540), (''2024-03-03'', 560), (''2024-03-03'', 580),
                             (''2024-03-04'', 540), (''2024-03-04'', 560), (''2024-03-04'', 580)])"
    by code_simp
  from explicit_dates_ignore_days [OF a b, of None "ex_env ''g-'' False" ex_db] f g w x
  show ?thesis by simp
qed

section \<open>The leap-day scenario\<close>

lemma scenario_dates:
  "date_walk (Some [4]) \<lparr>year = 2024, month = 3, day = 2\<rparr> \<lparr>year = 2024, month = 2, day = 26\<rparr> [] =
     Some [''2024-02-29'']"
  by code_simp

lemma scenario_parse:
  "parseDateStr ''2024-02-26'' = Some \<lparr>year = 2024, month = 2, day = 26\<rparr>"
  "parseDateStr ''2024-03-02'' = Some \<lparr>year = 2024, month = 3, day = 2\<rparr>"
  by code_simp+

lemma scenario_times:
  "for_dates 20 20 None [\<lparr>range_startTime = ''09:00'', range_endTime = ''10:00''\<rparr>] [''2024-02-29''] [] =
     Some [(''2024-02-29'', 540), (''2024-02-29'', 560), (''2024-02-29'', 580)]"
  by code_simp

lemma scenario_stamps:
  "minutesToTimeStr 540 = ''09:00:00''" "minutesToTimeStr 560 = ''09:20:00''"
  "minutesToTimeStr 580 = ''09:40:00''"
  by code_simp+

text \<open>
  C6. The request of the scenario (recurring from 2024-02-26 to 2024-03-02, Thursdays,
  one window 09:00 to 10:00, duration 20, no gap), whatever its other fields, expands to
  exactly three slots, on 2024-02-29 at 09:00, 09:20 and 09:40. The weekday function gives
  0 for Sunday 2024-02-25 and 4 for 2024-02-29; and for every date of the calendar, adding
  one day gives the next date by the leap-year rule, across month and year ends, the
  weekday of the next date is the weekday plus one modulo 7, and weekdays lie in 0 to 6.
\<close>

theorem leap_day_scenario:
  "(dates req = None \<and> startDate req = Some ''2024-02-26'' \<and> endDate req = Some ''2024-03-02'' \<and>
    days req = Some [4] \<and>
    timeRanges req = Some [\<lparr>range_startTime = ''09:00'', range_endTime = ''10:00''\<rparr>] \<and>
    gen_duration req = 20 \<and> breakTime req = Some 0 \<and> lunchBreak req = None
    \<longrightarrow> expand req = Some (Inr [(''2024-02-29'', 540), (''2024-02-29'', 560), (''2024-02-29'', 580)]) \<and>
        map (start_time \<circ> slot_of req) [(''2024-02-29'', 540), (''2024-02-29'', 560), (''2024-02-29'', 580)] =
          [''2024-02-29 09:00:00'', ''2024-02-29 09:20:00'', ''2024-02-29 09:40:00'']) \<and>
   getDayOfWeek 2024 2 25 = 0 \<and> getDayOfWeek 2024 2 29 = 4 \<and>
   (valid_date y m d
    \<longrightarrow> addDays y m d 1 = next_day y m d \<and>
        getDayOfWeek (year (next_day y m d)) (month (next_day y m d)) (day (next_day y m d)) =
          (getDayOfWeek y m d + 1) mod 7 \<and>
        0 \<le> getDayOfWeek y m d \<and> getDayOfWeek y m d \<le> 6)"
proof (intro conjI impI)
  assume h: "dates req = None \<and> startDate req = Some ''2024-02-26'' \<and> endDate req = Some ''2024-03-02'' \<and>
    days req = Some [4] \<and>
    timeRanges req = Some [\<lparr>range_startTime = ''09:00'', range_endTime = ''10:00''\<rparr>] \<and>
    gen_duration req = 20 \<and> breakTime req = Some 0 \<and> lunchBreak req = None"
  then have r: "resolve_dates req = Some (Inr [''2024-02-29''])"
    by (simp add: resolve_dates_def or_str_def scenario_parse scenario_dates)
  from h have k: "slotInterval req = 20" "lunch_window req = None"
    "ranges req = [\<lparr>range_startTime = ''09:00'', range_endTime = ''10:00''\<rparr>]"
    by (simp_all add: slotInterval_def or_num_def lunch_window_def ranges_def)
  from h have g: "gen_duration req = 20" by simp
  show "expand req = Some (Inr [(''2024-02-29'', 540), (''2024-02-29'', 560), (''2024-02-29'', 580)])"
    unfolding expand_def r k g by (simp add: scenario_times del: for_dates.simps)
  show "map (start_time \<circ> slot_of req) [(''2024-02-29'', 540), (''2024-02-29'', 560), (''2024-02-29'', 580)] =
          [''2024-02-29 09:00:00'', ''2024-02-29 09:20:00'', ''2024-02-29 09:40:00'']"
    by (simp add: slot_of_def scenario_stamps)
next
  show "getDayOfWeek 2024 2 25 = 0" by code_simp
next
  show "getDayOfWeek 2024 2 29 = 4" by code_simp
next
  assume "valid_date y m d"
  then show "addDays y m d 1 = next_day y m d" by (rule addDays_next_day)
next
  assume "valid_date y m d"
  then show "getDayOfWeek (year (next_day y m d)) (month (next_day y m d)) (day (next_day y m d)) =
          (getDayOfWeek y m d + 1) mod 7" by (rule weekday_of_next_day)
next
  assume "valid_date y m d"
  then show "0 \<le> getDayOfWeek y m d" using getDayOfWeek_range [of y m d] by (simp add: valid_date_def)
next
  assume "valid_date y m d"
  then show "getDayOfWeek y m d \<le> 6" using getDayOfWeek_range [of y m d] by (simp add: valid_date_def)
qed

theorem leap_day_scenario_witness:
  "expand scenario = Some (Inr [(''2024-02-29'', 540), (''2024-02-29'', 560), (''2024-02-29'', 580)]) \<and>
   map (start_time \<circ> slot_of scenario) [(''2024-02-29'', 540), (''2024-02-29'', 560), (''2024-02-29'', 580)] =
          [''2024-02-29 09:00:00'', ''2024-02-29 09:20:00'', ''2024-02-29 09:40:00''] \<and>
   map_option fst (generate (ex_env ''g-'' False) scenario ex_db) = Some (json (SuccessCount 3) 200) \<and>
   valid_date 2024 2 28 \<and> addDays 2024 2 28 1 = \<lparr>year = 2024, month = 2, day = 29\<rparr> \<and>
   getDayOfWeek 2024 2 28 = 3 \<and>
   valid_date 2023 2 28 \<and> addDays 2023 2 28 1 = \<lparr>year = 2023, month = 3, day = 1\<rparr> \<and>
   valid_date 2023 12 31 \<and> addDays 2023 12 31 1 = \<lparr>year = 2024, month = 1, day = 1\<rparr>"
proof -
  have h: "dates scenario = None \<and> startDate scenario = Some ''2024-02-26'' \<and>
    endDate scenario = Some ''2024-03-02'' \<and> days scenario = Some [4] \<and>
    timeRanges scenario = Some [\<lparr>range_startTime = ''09:00'', range_endTime = ''10:00''\<rparr>] \<and>
    gen_duration scenario = 20 \<and> breakTime scenario = Some 0 \<and> lunchBreak scenario = None"
    by (simp add: scenario_def)
  have l: "leap_year 2024" "\<not> leap_year 2023" by (simp_all add: leap_year_def)
  have v: "valid_date 2024 2 28" "valid_date 2023 2 28" "valid_date 2023 12 31"
    by (simp_all add: valid_date_def month_length_def l)
  have n: "next_day 2024 2 28 = \<lparr>year = 2024, month = 2, day = 29\<rparr>"
    "next_day 2023 2 28 = \<lparr>year = 2023, month = 3, day = 1\<rparr>"
    "next_day 2023 12 31 = \<lparr>year = 2024, month = 1, day = 1\<rparr>"
    by (simp_all add: next_day_def month_length_def l)
  have g: "map_option fst (generate (ex_env ''g-'' False) scenario ex_db) = Some (json (SuccessCount 3) 200)"
    by code_simp
  have w: "getDayOfWeek 2024 2 28 = 3" by code_simp
  from leap_day_scenario [of scenario 2024 2 28] leap_day_scenario [of scenario 2023 2 28]
    leap_day_scenario [of scenario 2023 12 31] h v n g w
  show ?thesis by simp
qed

section \<open>The outcomes of slot generation\<close>

text \<open>Without time windows the request succeeds, with the 24 slots of the default window;
  and a window shorter than a slot is answered with an error, not with a count of 0.\<close>

theorem generate_count_zero_counterexample:
  "timeRanges no_windows = Some [] \<and>
   map_option fst (generate (ex_env ''g-'' False) no_windows ex_db) = Some (json (SuccessCount 24) 200) \<and>
   map_option fst (generate (ex_env ''g-'' False) short_window ex_db) =
     Some (json (Error ''No slots generated'') 400)"
  by code_simp

lemma resolve_dates_Inl:
  "resolve_dates req = Some (Inl r) \<Longrightarrow> r = json (Error ''Invalid date format'') 400"
  by (auto simp add: resolve_dates_def split: option.splits list.splits if_splits)

lemma expand_Inl:
  "expand req = Some (Inl r) \<Longrightarrow> \<exists>msg. r = json (Error msg) 400"
  using resolve_dates_Inl [of req r]
  by (auto simp add: expand_def split: option.splits sum.splits if_splits)

text \<open>
  C4, in the form that holds of the code. With no date resolved the handler answers 400 "No valid dates provided".
  With no time windows it does not fail: the windows default to the single window from
  \<^verbatim>\<open>startTime\<close> (or 09:00) to \<^verbatim>\<open>endTime\<close> (or 17:00). An expansion that yields no
  slot is answered 400 "No slots generated", and a success response never reports a
  count of 0.
\<close>

theorem generate_outcomes:
  "(validateString (gen_subjectId req) 1 36 \<and> resolve_dates req = Some (Inr [])
      \<longrightarrow> generate e req d = Some (json (Error ''No valid dates provided'') 400, d)) \<and>
   (timeRanges req = None \<or> timeRanges req = Some []
      \<longrightarrow> ranges req = [\<lparr>range_startTime = or_str (startTime req) ''09:00'',
                          range_endTime = or_str (endTime req) ''17:00''\<rparr>]) \<and>
   (validateString (gen_subjectId req) 1 36 \<and> expand req = Some (Inr [])
      \<longrightarrow> generate e req d = Some (json (Error ''No slots generated'') 400, d)) \<and>
   (map_option fst (generate e req d) = Some (json (SuccessCount n) 200) \<longrightarrow> 0 < n)"
proof (intro conjI impI)
  assume "validateString (gen_subjectId req) 1 36 \<and> resolve_dates req = Some (Inr [])"
  then show "generate e req d = Some (json (Error ''No valid dates provided'') 400, d)"
    by (simp add: generate_def expand_def)
next
  assume "timeRanges req = None \<or> timeRanges req = Some []"
  then show "ranges req = [\<lparr>range_startTime = or_str (startTime req) ''09:00'',
                          range_endTime = or_str (endTime req) ''17:00''\<rparr>]"
    by (auto simp add: ranges_def)
next
  assume "validateString (gen_subjectId req) 1 36 \<and> expand req = Some (Inr [])"
  then show "generate e req d = Some (json (Error ''No slots generated'') 400, d)"
    by (simp add: generate_def)
next
  assume "map_option fst (generate e req d) = Some (json (SuccessCount n) 200)"
  then show "0 < n"
    using expand_Inl [of req]
    by (auto simp add: generate_def json_def server_error_def
        split: if_splits option.splits sum.splits prod.splits bool.splits)
qed

theorem generate_outcomes_witness:
  "generate (ex_env ''g-'' False) no_dates ex_db = Some (json (Error ''No valid dates provided'') 400, ex_db) \<and>
   ranges no_windows = [\<lparr>range_startTime = ''09:00'', range_endTime = ''17:00''\<rparr>] \<and>
   generate (ex_env ''g-'' False) short_window ex_db = Some (json (Error ''No slots generated'') 400, ex_db) \<and>
   map_option fst (generate (ex_env ''g-'' False) scenario ex_db) = Some (json (SuccessCount 3) 200) \<and>
   (0::nat) < 3"
proof -
  have v: "validateString (gen_subjectId no_dates) 1 36" "validateString (gen_subjectId short_window) 1 36"
    by code_simp+
  have a: "resolve_dates no_dates = Some (Inr [])" by code_simp
  have b: "timeRanges no_windows = None \<or> timeRanges no_windows = Some []"
    by (simp add: no_windows_def)
  have c: "expand short_window = Some (Inr [])" by code_simp
  have g: "map_option fst (generate (ex_env ''g-'' False) scenario ex_db) = Some (json (SuccessCount 3) 200)"
    by code_simp
  have s: "startTime no_windows = None" "endTime no_windows = None"
    by (simp_all add: no_windows_def scenario_def)
  from generate_outcomes [of no_dates "ex_env ''g-'' False" ex_db 3]
    generate_outcomes [of no_windows "ex_env ''g-'' False" ex_db 3]
    generate_outcomes [of short_window "ex_env ''g-'' False" ex_db 3]
    generate_outcomes [of scenario "ex_env ''g-'' False" ex_db 3] v a b c g s
  show ?thesis by (simp add: or_str_def)
qed

section \<open>The capacity invariant\<close>

lemma inv_update_increment: "inv_at d sid \<Longrightarrow> inv_at (update_increment sid' seen d) sid"
  by (auto simp add: inv_at_def update_increment_def slot_inv_def split: option.splits)

lemma inv_update_decrement: "inv_at d sid \<Longrightarrow> inv_at (update_decrement sid' d) sid"
  by (auto simp add: inv_at_def update_decrement_def slot_inv_def split: option.splits)

lemma inv_bookings_update [simp]: "inv_at (d\<lparr>bookings := bs\<rparr>) sid = inv_at d sid"
  by (simp add: inv_at_def)

lemma inv_create_booking: "inv_at d sid \<Longrightarrow> inv_at (snd (create_booking e data d)) sid"
  by (auto simp add: create_booking_def insert_booking_def inv_update_decrement
      split: option.splits if_splits)

lemma inv_post_bookings: "inv_at d sid \<Longrightarrow> inv_at (snd (post_bookings e data d)) sid"
  by (auto simp add: post_bookings_def Let_def inv_update_increment inv_create_booking
      split: option.splits if_splits)

lemma inv_delete_staff_booking:
  "inv_at d sid \<Longrightarrow> inv_at (snd (delete_staff_booking e bookingId d)) sid"
  by (auto simp add: delete_staff_booking_def Let_def inv_update_decrement
      split: list.splits if_splits)

lemma inv_post_staff_slots:
  "0 \<le> or_num (new_maxCapacity req) 1 \<Longrightarrow> inv_at d sid \<Longrightarrow>
   inv_at (snd (post_staff_slots e req d)) sid"
  by (auto simp add: post_staff_slots_def inv_at_def slot_inv_def split: option.splits if_splits)

lemma inv_put_staff_slots:
  "edit_keeps_capacity u sid' d \<Longrightarrow> inv_at d sid \<Longrightarrow>
   inv_at (snd (put_staff_slots e sid' u d)) sid"
  by (auto simp add: put_staff_slots_def Let_def inv_at_def slot_inv_def apply_update_def
      edit_keeps_capacity_def split: option.splits if_splits)

lemma inv_insert_slots:
  "\<forall>p \<in> set rows. slot_inv (snd p) \<Longrightarrow> insert_slots rows d = Some d' \<Longrightarrow> inv_at d sid \<Longrightarrow>
   inv_at d' sid"
  by (fastforce simp add: insert_slots_def inv_at_def map_add_def split: option.splits if_splits
      dest!: map_of_SomeD)

lemma inv_insert_all:
  "\<forall>b \<in> set bs. \<forall>p \<in> set b. slot_inv (snd p) \<Longrightarrow> inv_at d sid \<Longrightarrow>
   inv_at (snd (insert_all e i bs d)) sid"
proof (induction bs arbitrary: i d)
  case Nil
  then show ?case by simp
next
  case (Cons b bs)
  show ?case
  proof (cases "if fails e (InsertBatch i) then None else insert_slots b d")
    case None
    with Cons.prems show ?thesis by simp
  next
    case (Some d')
    then have "insert_slots b d = Some d'" by (simp split: if_splits)
    with Cons.prems have "inv_at d' sid" by (auto intro: inv_insert_slots)
    with Cons.IH [of d' "Suc i"] Cons.prems Some show ?thesis by simp
  qed
qed

lemma set_batches: "b \<in> set (batches xs) \<Longrightarrow> set b \<subseteq> set xs"
proof (induction xs arbitrary: b rule: batches.induct)
  case (1 xs)
  show ?case
  proof (cases "xs = []")
    case True
    with "1.prems" show ?thesis by (simp add: batches.simps [of "[]"])
  next
    case False
    with "1.prems" have "b = take 50 xs \<or> b \<in> set (batches (drop 50 xs))"
      by (simp add: batches.simps [of xs])
    then show ?thesis
    proof
      assume "b = take 50 xs"
      then show ?thesis by (auto dest: in_set_takeD)
    next
      assume "b \<in> set (batches (drop 50 xs))"
      from "1.IH" [OF False this] show ?thesis by (auto dest: in_set_dropD)
    qed
  qed
qed

lemma rows_of_inv: "0 \<le> capacity req \<Longrightarrow> p \<in> set (rows_of e req ps) \<Longrightarrow> slot_inv (snd p)"
  by (auto simp add: rows_of_def slot_of_def slot_inv_def)

lemma inv_generate:
  assumes "0 \<le> capacity req" and "generate e req d = Some (r, d')" and "inv_at d sid"
  shows "inv_at d' sid"
proof -
  have rows: "\<forall>b \<in> set (batches (rows_of e req ps)). \<forall>p \<in> set b. slot_inv (snd p)" for ps
    using set_batches rows_of_inv [OF assms(1)] by blast
  have "inv_at (snd (insert_all e 0 (batches (rows_of e req ps)) d)) sid" for ps
    using inv_insert_all [OF rows assms(3)] .
  then have "insert_all e 0 (batches (rows_of e req ps)) d = (ok, d'') \<Longrightarrow> inv_at d'' sid" for ps ok d''
    by (metis snd_conv)
  with assms(2,3) show ?thesis
    by (auto simp add: generate_def split: if_splits option.splits sum.splits prod.splits bool.splits)
qed

text \<open>The unguarded edit: lowering the capacity of a full slot to 0 leaves the counter
  above it; and a slot created with capacity -1 has its counter above its capacity.\<close>

theorem capacity_invariant_counterexample:
  "inv_at full_db ''slot-1'' \<and>
   \<not> inv_at (snd (put_staff_slots (ex_env ''s-'' False) ''slot-1'' lower_capacity full_db)) ''slot-1'' \<and>
   inv_at ex_db ''s-0'' \<and>
   \<not> inv_at (snd (post_staff_slots (ex_env ''s-'' False) negative_capacity ex_db)) ''s-0''"
  by code_simp

text \<open>
  C7, in the form that holds of the code. For the row under any slot id, the invariant
  \<open>0 \<le> current_bookings \<le> max_capacity\<close> is kept by the conditional increment (for every
  value it is given as seen), by the decrement floored at 0, and by the booking and
  cancellation handlers whatever their outcome; slot creation and generation keep it when
  the capacity they are given is not negative; a staff edit keeps it when it leaves the
  capacity unset or sets it no lower than the counter of the slot.
\<close>

theorem capacity_invariant_preserved:
  "(inv_at d sid \<longrightarrow> inv_at (update_increment sid' seen d) sid \<and> inv_at (update_decrement sid' d) sid \<and>
      inv_at (snd (post_bookings e data d)) sid \<and>
      inv_at (snd (delete_staff_booking e bookingId d)) sid) \<and>
   (inv_at d sid \<and> 0 \<le> or_num (new_maxCapacity sreq) 1
      \<longrightarrow> inv_at (snd (post_staff_slots e sreq d)) sid) \<and>
   (inv_at d sid \<and> 0 \<le> capacity greq \<and> generate e greq d = Some (r, d') \<longrightarrow> inv_at d' sid) \<and>
   (inv_at d sid \<and> edit_keeps_capacity u sid' d
      \<longrightarrow> inv_at (snd (put_staff_slots e sid' u d)) sid)"
  using inv_update_increment [of d sid sid' seen] inv_update_decrement [of d sid sid']
    inv_post_bookings [of d sid e data] inv_delete_staff_booking [of d sid e bookingId]
    inv_post_staff_slots [of sreq d sid e] inv_generate [of greq e d r d' sid]
    inv_put_staff_slots [of u sid' d sid e]
  by blast


lemma generate_result:
  "map_option fst (generate e req d) = Some a \<Longrightarrow> generate e req d = Some (a, snd (the (generate e req d)))"
  by (cases "generate e req d") auto

theorem capacity_invariant_preserved_witness:
  "inv_at full_db ''slot-1'' \<and> edit_keeps_capacity raise_capacity ''slot-1'' full_db \<and>
   inv_at (snd (put_staff_slots (ex_env ''s-'' False) ''slot-1'' raise_capacity full_db)) ''slot-1'' \<and>
   inv_at ex_db ''slot-1'' \<and>
   inv_at (update_increment ''slot-1'' 0 ex_db) ''slot-1'' \<and>
   inv_at (update_decrement ''slot-1'' ex_db) ''slot-1'' \<and>
   inv_at (snd (post_bookings (ex_env ''b-'' False) (ex_request ''1001'') ex_db)) ''slot-1'' \<and>
   inv_at (snd (delete_staff_booking (ex_env ''b-'' False) ''b-0'' ex_db)) ''slot-1'' \<and>
   inv_at (snd (post_staff_slots (ex_env ''s-'' False) (negative_capacity\<lparr>new_maxCapacity := None\<rparr>) ex_db)) ''s-0'' \<and>
   inv_at (snd (the (generate (ex_env ''g-'' False) scenario ex_db))) ''g-0''"
proof -
  let ?e = "ex_env ''b-'' False"
  have a: "inv_at full_db ''slot-1''" "inv_at ex_db ''slot-1''" "inv_at ex_db ''s-0''"
    "inv_at ex_db ''g-0''"
    by (simp_all add: inv_at_def full_db_def ex_db_def ex_slot_def slot_inv_def)
  have b: "edit_keeps_capacity raise_capacity ''slot-1'' full_db"
    by (simp add: edit_keeps_capacity_def raise_capacity_def lower_capacity_def full_db_def ex_slot_def)
  have c: "0 \<le> or_num (new_maxCapacity (negative_capacity\<lparr>new_maxCapacity := None\<rparr>)) 1"
    by (simp add: or_num_def)
  have g: "0 \<le> capacity scenario" by (simp add: scenario_def)
  have "map_option fst (generate (ex_env ''g-'' False) scenario ex_db) = Some (json (SuccessCount 3) 200)"
    by code_simp
  then have h: "generate (ex_env ''g-'' False) scenario ex_db =
      Some (json (SuccessCount 3) 200, snd (the (generate (ex_env ''g-'' False) scenario ex_db)))"
    by (rule generate_result)
  from capacity_invariant_preserved [where d = full_db and sid = "''slot-1''" and sid' = "''slot-1''"
      and u = raise_capacity and e = "ex_env ''s-'' False"] a b
  have 1: "inv_at (snd (put_staff_slots (ex_env ''s-'' False) ''slot-1'' raise_capacity full_db)) ''slot-1''"
    by blast
  from capacity_invariant_preserved [where d = ex_db and sid = "''slot-1''" and sid' = "''slot-1''"
      and seen = 0 and e = ?e and data = "ex_request ''1001''" and bookingId = "''b-0''"] a
  have 2: "inv_at (update_increment ''slot-1'' 0 ex_db) ''slot-1'' \<and>
      inv_at (update_decrement ''slot-1'' ex_db) ''slot-1'' \<and>
      inv_at (snd (post_bookings ?e (ex_request ''1001'') ex_db)) ''slot-1'' \<and>
      inv_at (snd (delete_staff_booking ?e ''b-0'' ex_db)) ''slot-1''"
    by blast
  from capacity_invariant_preserved [where d = ex_db and sid = "''s-0''" and e = "ex_env ''s-'' False"
      and sreq = "negative_capacity\<lparr>new_maxCapacity := None\<rparr>"] a c
  have 3: "inv_at (snd (post_staff_slots (ex_env ''s-'' False) (negative_capacity\<lparr>new_maxCapacity := None\<rparr>) ex_db)) ''s-0''"
    by blast
  from capacity_invariant_preserved [where d = ex_db and sid = "''g-0''" and e = "ex_env ''g-'' False"
      and greq = scenario and r = "json (SuccessCount 3) 200"
      and d' = "snd (the (generate (ex_env ''g-'' False) scenario ex_db))"] a g h
  have 4: "inv_at (snd (the (generate (ex_env ''g-'' False) scenario ex_db))) ''g-0''"
    by blast
  from a b 1 2 3 4 show ?thesis by blast
qed

end
